theory Spec2Isabelle
  imports Main "HOL-Library.AList" "HOL-Library.Multiset" "HOL-Library.Stream"
begin

section \<open>The cube model of \<^verbatim>\<open>rubiks_cube/models/cube_model.py\<close>\<close>

subsection \<open>Constants and data\<close>

text \<open>
  Colours are the Python integers 0..5 of the module header.
\<close>

definition WHITE :: int where "WHITE = 0"
definition YELLOW :: int where "YELLOW = 1"
definition RED :: int where "RED = 2"
definition ORANGE :: int where "ORANGE = 3"
definition BLUE :: int where "BLUE = 4"
definition GREEN :: int where "GREEN = 5"

text \<open>
  Exceptions of the Python run time that the code can raise without catching them.
\<close>

datatype error = KeyError | ValueError | TypeError | IndexError | OverflowError

text \<open>
  The axis indices 0, 1, 2 of the source (\<^verbatim>\<open>rotation_axis: 0=x, 1=y, 2=z\<close>) are the
  constructors \<open>X\<close>, \<open>Y\<close>, \<open>Z\<close>; \<^verbatim>\<open>range(3)\<close> is \<open>range3\<close>. Every axis value of
  the program comes from the tables \<^verbatim>\<open>FACE_AXES\<close> and \<^verbatim>\<open>face_to_axis\<close>, whose
  entries are 0, 1 or 2.
\<close>

datatype axis = X | Y | Z

definition range3 :: "axis list" where
  "range3 = [X, Y, Z]"

text \<open>
  A position is the tuple \<^verbatim>\<open>(x, y, z)\<close> of Python integers that keys the dictionary of
  cubies; \<open>coord pos i\<close> is \<^verbatim>\<open>pos[i]\<close> and \<open>set_coord\<close> the assignment
  \<^verbatim>\<open>new_pos[i] = v\<close> on the list copy of the tuple.
\<close>

type_synonym pos = "int \<times> int \<times> int"

fun coord :: "pos \<Rightarrow> axis \<Rightarrow> int" where
  "coord (px, py, pz) X = px"
| "coord (px, py, pz) Y = py"
| "coord (px, py, pz) Z = pz"

fun set_coord :: "pos \<Rightarrow> axis \<Rightarrow> int \<Rightarrow> pos" where
  "set_coord (px, py, pz) X v = (v, py, pz)"
| "set_coord (px, py, pz) Y v = (px, v, pz)"
| "set_coord (px, py, pz) Z v = (px, py, v)"

text \<open>
  The six keys \<^verbatim>\<open>"x+", "x-", "y+", "y-", "z+", "z-"\<close> of a cubie's colour dictionary.
  The dictionary always has exactly these keys, each bound to a colour or to
  \<^verbatim>\<open>None\<close>, so it is a total function into \<open>int option\<close>.
\<close>

datatype face_key = XPlus | XMinus | YPlus | YMinus | ZPlus | ZMinus

record cubie =
  cubie_x :: int
  cubie_y :: int
  cubie_z :: int
  colors :: "face_key \<Rightarrow> int option"

text \<open>\<^verbatim>\<open>Cubie.__init__\<close>\<close>

definition Cubie :: "int \<Rightarrow> int \<Rightarrow> int \<Rightarrow> cubie" where
  "Cubie px py pz =
     \<lparr>cubie_x = px, cubie_y = py, cubie_z = pz,
      colors = (\<lambda>k. case k of
         XPlus \<Rightarrow> (if px = 1 then Some RED else None)
       | XMinus \<Rightarrow> (if px = -1 then Some ORANGE else None)
       | YPlus \<Rightarrow> (if py = 1 then Some BLUE else None)
       | YMinus \<Rightarrow> (if py = -1 then Some GREEN else None)
       | ZPlus \<Rightarrow> (if pz = 1 then Some WHITE else None)
       | ZMinus \<Rightarrow> (if pz = -1 then Some YELLOW else None))\<rparr>"

text \<open>
  A Python dictionary keeps its keys in insertion order: it is an association list, and
  \<^verbatim>\<open>d[k] = v\<close> is \<open>AList.update k v d\<close> (replace in place, or append). \<open>lookup\<close>
  is \<^verbatim>\<open>d[k]\<close>, which raises \<^verbatim>\<open>KeyError\<close> on a missing key.
\<close>

definition lookup :: "('k \<times> 'v) list \<Rightarrow> 'k \<Rightarrow> error + 'v" where
  "lookup d k = (case map_of d k of None \<Rightarrow> Inl KeyError | Some v \<Rightarrow> Inr v)"

definition FACE_AXES :: "(int \<times> axis \<times> int) list" where
  "FACE_AXES = [(0, (Z, 1)), (1, (Z, -1)), (2, (X, 1)), (3, (X, -1)), (4, (Y, 1)), (5, (Y, -1))]"

record cube_model =
  cubies :: "(pos \<times> cubie) list"
  animating :: bool
  animation_progress :: int
  history :: "(int \<times> int) list"

text \<open>\<^verbatim>\<open>CubeModel.__init__\<close>: the three nested loops over \<^verbatim>\<open>range(-1, 2)\<close>.\<close>

definition CubeModel_init :: cube_model where
  "CubeModel_init =
     \<lparr>cubies = fold (\<lambda>(px, py, pz) cs.
                  if px = 0 \<and> py = 0 \<and> pz = 0 then cs
                  else AList.update (px, py, pz) (Cubie px py pz) cs)
                (List.product [-1, 0, 1] (List.product [-1, 0, 1] [-1, 0, 1])) [],
      animating = False,
      animation_progress = 0,
      history = []\<rparr>"

subsection \<open>\<^verbatim>\<open>_rotate_cubie_colors\<close>\<close>

definition face_to_axis :: "(face_key \<times> axis \<times> int) list" where
  "face_to_axis =
     [(XPlus, (X, 1)), (XMinus, (X, -1)), (YPlus, (Y, 1)), (YMinus, (Y, -1)),
      (ZPlus, (Z, 1)), (ZMinus, (Z, -1))]"

definition axis_to_face :: "((axis \<times> int) \<times> face_key) list" where
  "axis_to_face = fold (\<lambda>(k, v) d. AList.update v k d) face_to_axis []"

text \<open>\<^verbatim>\<open>[i for i in range(3) if i != axis]\<close>\<close>

definition other_axes :: "axis \<Rightarrow> axis list" where
  "other_axes a = filter (\<lambda>i. i \<noteq> a) range3"

text \<open>The body of the loop over \<^verbatim>\<open>affected_faces\<close>: the new key of one face key.\<close>

definition new_face_key :: "axis \<Rightarrow> axis \<Rightarrow> int \<Rightarrow> face_key \<Rightarrow> error + face_key" where
  "new_face_key a1 a2 direction fk =
     (case lookup face_to_axis fk of
        Inl e \<Rightarrow> Inl e
      | Inr (face_axis, face_sign) \<Rightarrow>
          (let (new_axis, new_sign) =
             (if face_axis = a1
              then (if direction = 1 then (a2, face_sign) else (a2, - face_sign))
              else (if direction = 1 then (a1, - face_sign) else (a1, face_sign)))
           in lookup axis_to_face (new_axis, new_sign)))"

fun affected_loop ::
  "axis \<Rightarrow> axis \<Rightarrow> int \<Rightarrow> face_key list \<Rightarrow> (face_key \<times> face_key) list
     \<Rightarrow> error + (face_key \<times> face_key) list" where
  "affected_loop a1 a2 direction [] fm = Inr fm"
| "affected_loop a1 a2 direction (fk # rest) fm =
     (case new_face_key a1 a2 direction fk of
        Inl e \<Rightarrow> Inl e
      | Inr new_key \<Rightarrow> affected_loop a1 a2 direction rest (AList.update fk new_key fm))"

text \<open>
  The dictionary \<^verbatim>\<open>face_mapping\<close>: first the keys on the rotation axis, mapped to
  themselves, then the four affected keys. \<^verbatim>\<open>a1, a2 = affected_axes\<close> raises
  \<^verbatim>\<open>ValueError\<close> unless the list has two elements.
\<close>

definition face_mapping :: "axis \<Rightarrow> int \<Rightarrow> error + (face_key \<times> face_key) list" where
  "face_mapping rotation_axis direction =
     (let affected_axes = other_axes rotation_axis;
          fixed = fold (\<lambda>(fk, (a, s)) fm.
                     if a = rotation_axis then AList.update fk fk fm else fm)
                   face_to_axis [];
          affected_faces =
            map fst (filter (\<lambda>(fk, (a, s)). a \<in> set affected_axes) face_to_axis)
      in case affected_axes of
           [a1, a2] \<Rightarrow> affected_loop a1 a2 direction affected_faces fixed
         | _ \<Rightarrow> Inl ValueError)"

text \<open>
  The last loop: every colour of the old cubie that is not \<^verbatim>\<open>None\<close> is written to the
  new cubie under the mapped key.
\<close>

definition apply_face_mapping :: "cubie \<Rightarrow> (face_key \<times> face_key) list \<Rightarrow> cubie \<Rightarrow> cubie" where
  "apply_face_mapping old_cubie fm new_cubie =
     fold (\<lambda>(old_face, new_face) nc.
             case colors old_cubie old_face of
               None \<Rightarrow> nc
             | Some c \<Rightarrow> nc\<lparr>colors := (colors nc)(new_face := Some c)\<rparr>)
          fm new_cubie"

text \<open>
  The Python method mutates \<^verbatim>\<open>new_cubie\<close> in place; the model returns it.
\<close>

definition rotate_cubie_colors :: "cubie \<Rightarrow> cubie \<Rightarrow> axis \<Rightarrow> int \<Rightarrow> error + cubie" where
  "rotate_cubie_colors old_cubie new_cubie rotation_axis direction =
     (case face_mapping rotation_axis direction of
        Inl e \<Rightarrow> Inl e
      | Inr fm \<Rightarrow> Inr (apply_face_mapping old_cubie fm new_cubie))"

subsection \<open>\<^verbatim>\<open>rotate_face\<close>\<close>

text \<open>
  The loop over \<^verbatim>\<open>face_cubies\<close>, building \<^verbatim>\<open>new_cubies\<close>.
\<close>

fun move_face_cubies ::
  "axis \<Rightarrow> int \<Rightarrow> (pos \<times> cubie) list \<Rightarrow> (pos \<times> cubie) list \<Rightarrow> error + (pos \<times> cubie) list" where
  "move_face_cubies a effective_dir [] new_cubies = Inr new_cubies"
| "move_face_cubies a effective_dir ((p, c) # rest) new_cubies =
     (case other_axes a of
        [a1, a2] \<Rightarrow>
          (let new_pos =
                 (if effective_dir = 1
                  then set_coord (set_coord p a1 (- coord p a2)) a2 (coord p a1)
                  else set_coord (set_coord p a1 (coord p a2)) a2 (- coord p a1));
               new_cubie = Cubie (coord new_pos X) (coord new_pos Y) (coord new_pos Z)
           in case rotate_cubie_colors c new_cubie a effective_dir of
                Inl e \<Rightarrow> Inl e
              | Inr new_cubie' \<Rightarrow>
                  move_face_cubies a effective_dir rest
                    (AList.update new_pos new_cubie' new_cubies))
      | _ \<Rightarrow> Inl ValueError)"

text \<open>
  \<^verbatim>\<open>print(f"Rotating face {face} in direction {direction}")\<close> writes a line to the
  standard output, which is not part of the state. Formatting the two integers can
  fail: CPython (3.11 and later, with its default setting) refuses to convert an integer
  of more than 4300 decimal digits to text and raises \<^verbatim>\<open>ValueError\<close>.
\<close>

definition int_max_str_digits :: nat where
  "int_max_str_digits = 4300"

definition str_int_ok :: "int \<Rightarrow> bool" where
  "str_int_ok n = (\<bar>n\<bar> < 10 ^ int_max_str_digits)"

definition print_rotating :: "int \<Rightarrow> int \<Rightarrow> error + unit" where
  "print_rotating face direction =
     (if str_int_ok face \<and> str_int_ok direction then Inr () else Inl ValueError)"

text \<open>
  The method returns a Boolean or leaves with an exception; in both cases the object
  keeps what was assigned before, so the result is the outcome paired with the state.
  The line is printed after the test of \<^verbatim>\<open>animating\<close> and before the move is
  appended to the history; the move is appended before \<^verbatim>\<open>FACE_AXES[face]\<close> is looked
  up.
\<close>

definition rotate_face :: "cube_model \<Rightarrow> int \<Rightarrow> int \<Rightarrow> (error + bool) \<times> cube_model" where
  "rotate_face s face direction =
     (if animating s then (Inr False, s)
      else
        case print_rotating face direction of
          Inl e \<Rightarrow> (Inl e, s)
        | Inr u \<Rightarrow>
            (let s1 = s\<lparr>history := history s @ [(face, direction)]\<rparr> in
             case lookup FACE_AXES face of
               Inl e \<Rightarrow> (Inl e, s1)
             | Inr (a, sign) \<Rightarrow>
                 (let face_cubies = filter (\<lambda>(p, c). coord p a = sign) (cubies s1);
                      effective_dir = direction * sign
                  in case move_face_cubies a effective_dir face_cubies [] of
                       Inl e \<Rightarrow> (Inl e, s1)
                     | Inr moved \<Rightarrow>
                         (let new_cubies =
                                fold (\<lambda>(p, c) nc.
                                        if coord p a \<noteq> sign then AList.update p c nc
                                        else nc)
                                     (cubies s1) moved
                          in (Inr True, s1\<lparr>cubies := new_cubies\<rparr>)))))"

subsection \<open>\<^verbatim>\<open>is_solved\<close>\<close>

text \<open>
  The face key \<^verbatim>\<open>f"{['x', 'y', 'z'][axis]}{'+' if sign > 0 else '-'}"\<close>.
\<close>

definition face_key_of :: "axis \<Rightarrow> int \<Rightarrow> face_key" where
  "face_key_of a sign =
     (case a of
        X \<Rightarrow> (if sign > 0 then XPlus else XMinus)
      | Y \<Rightarrow> (if sign > 0 then YPlus else YMinus)
      | Z \<Rightarrow> (if sign > 0 then ZPlus else ZMinus))"

text \<open>
  The loop \<^verbatim>\<open>for i in range(3)\<close> that clears \<^verbatim>\<open>is_center\<close> and breaks.
\<close>

fun is_center :: "axis \<Rightarrow> pos \<Rightarrow> axis list \<Rightarrow> bool" where
  "is_center a p [] = True"
| "is_center a p (i # rest) =
     (if i \<noteq> a \<and> coord p i \<noteq> 0 then False else is_center a p rest)"

text \<open>
  The scan of one face: the cubies on it, in dictionary order, and the colour of the last
  centre cubie met (\<^verbatim>\<open>None\<close> when there is none).
\<close>

definition scan_face ::
  "axis \<Rightarrow> int \<Rightarrow> face_key \<Rightarrow> (pos \<times> cubie) list \<Rightarrow> cubie list \<times> int option" where
  "scan_face a sign fk cs =
     fold (\<lambda>(p, c) (cubies_on_face, center_color).
             if coord p a = sign
             then (cubies_on_face @ [c],
                   if is_center a p range3 then colors c fk else center_color)
             else (cubies_on_face, center_color))
          cs ([], None)"

fun is_solved_faces :: "(int \<times> axis \<times> int) list \<Rightarrow> (pos \<times> cubie) list \<Rightarrow> bool" where
  "is_solved_faces [] cs = True"
| "is_solved_faces ((face_idx, (a, sign)) # rest) cs =
     (let fk = face_key_of a sign;
          (cubies_on_face, center_color) = scan_face a sign fk cs
      in if list_ex (\<lambda>c. colors c fk \<noteq> center_color) cubies_on_face then False
         else is_solved_faces rest cs)"

definition is_solved :: "cube_model \<Rightarrow> bool" where
  "is_solved s = is_solved_faces FACE_AXES (cubies s)"

subsection \<open>\<^verbatim>\<open>get_solution\<close>\<close>

definition get_solution :: "cube_model \<Rightarrow> (int \<times> int) list" where
  "get_solution s =
     fold (\<lambda>(face, direction) solution. solution @ [(face, - direction)])
          (rev (history s)) []"

subsection \<open>\<^verbatim>\<open>randomize\<close>\<close>

text \<open>
  The module \<^verbatim>\<open>random\<close> keeps one generator for the whole process. Its state is the
  stream of the draws still to come; \<^verbatim>\<open>random.choice(seq)\<close> consumes one draw and
  picks an element of the sequence with it, and raises \<^verbatim>\<open>IndexError\<close> on an empty
  sequence.
\<close>

type_synonym rng = "nat stream"

definition choice :: "'a list \<Rightarrow> rng \<Rightarrow> error + ('a \<times> rng)" where
  "choice xs g = (if xs = [] then Inl IndexError else Inr (xs ! (shd g mod length xs), stl g))"

definition faces :: "int list" where
  "faces = map int [0..<6]"

definition directions :: "int list" where
  "directions = [1, -1]"

fun randomize_loop :: "nat \<Rightarrow> cube_model \<Rightarrow> rng \<Rightarrow> (error + bool) \<times> cube_model \<times> rng" where
  "randomize_loop 0 s g = (Inr True, s, g)"
| "randomize_loop (Suc n) s g =
     (case choice faces g of
        Inl e \<Rightarrow> (Inl e, s, g)
      | Inr (face, g1) \<Rightarrow>
          (case choice directions g1 of
             Inl e \<Rightarrow> (Inl e, s, g1)
           | Inr (direction, g2) \<Rightarrow>
               (case rotate_face s face direction of
                  (Inl e, s') \<Rightarrow> (Inl e, s', g2)
                | (Inr b, s') \<Rightarrow> randomize_loop n s' g2)))"

text \<open>
  \<^verbatim>\<open>range(num_moves)\<close> is empty for a negative count.
\<close>

definition randomize :: "cube_model \<Rightarrow> int \<Rightarrow> rng \<Rightarrow> (error + bool) \<times> cube_model \<times> rng" where
  "randomize s num_moves g =
     (if animating s then (Inr False, s, g) else randomize_loop (nat num_moves) s g)"


subsection \<open>\<^verbatim>\<open>get_face_colors\<close>\<close>

text \<open>
  \<^verbatim>\<open>_get_coordinate_mapping\<close> returns the closure \<^verbatim>\<open>map_func\<close>; it is applied to
  the position shifted by one in each coordinate.
\<close>

definition get_coordinate_mapping :: "axis \<Rightarrow> int \<Rightarrow> error + (pos \<Rightarrow> int \<times> int)" where
  "get_coordinate_mapping a sign =
     (case other_axes a of
        [a1, a2] \<Rightarrow>
          Inr (\<lambda>p. let c1 = coord p a1; c2 = coord p a2
                   in if a = X then (if sign > 0 then (2 - c2, c1) else (2 - c2, 2 - c1))
                      else if a = Y then (if sign > 0 then (2 - c2, 2 - c1) else (2 - c2, c1))
                      else (if sign > 0 then (c2, c1) else (2 - c2, c1)))
      | _ \<Rightarrow> Inl ValueError)"

text \<open>
  The grid is a 3 by 3 \<^verbatim>\<open>numpy\<close> array of machine integers, a list of three rows.
  \<^verbatim>\<open>colors[row, col] = v\<close> accepts the indices -3..2 (a negative index counts from the
  end) and raises \<^verbatim>\<open>IndexError\<close> outside; it raises \<^verbatim>\<open>TypeError\<close> when the value is
  \<^verbatim>\<open>None\<close> and \<^verbatim>\<open>OverflowError\<close> when it does not fit the 64-bit cell.
\<close>

type_synonym grid = "int list list"

definition grid_set :: "grid \<Rightarrow> int \<Rightarrow> int \<Rightarrow> int option \<Rightarrow> error + grid" where
  "grid_set g row col v =
     (if row < -3 \<or> 3 \<le> row \<or> col < -3 \<or> 3 \<le> col then Inl IndexError
      else case v of
             None \<Rightarrow> Inl TypeError
           | Some c \<Rightarrow>
               if c < - (2 ^ 63) \<or> 2 ^ 63 \<le> c then Inl OverflowError
               else Inr (g[nat (row mod 3) := (g ! nat (row mod 3))[nat (col mod 3) := c]]))"

fun fill_grid ::
  "axis \<Rightarrow> int \<Rightarrow> face_key \<Rightarrow> (pos \<Rightarrow> int \<times> int) \<Rightarrow> (pos \<times> cubie) list \<Rightarrow> grid \<Rightarrow> error + grid" where
  "fill_grid a sign fk coord_map [] g = Inr g"
| "fill_grid a sign fk coord_map ((p, c) # rest) g =
     (if coord p a = sign
      then (let normalized_pos = (coord p X + 1, coord p Y + 1, coord p Z + 1);
                (row, col) = coord_map normalized_pos
            in case grid_set g row col (colors c fk) of
                 Inl e \<Rightarrow> Inl e
               | Inr g' \<Rightarrow> fill_grid a sign fk coord_map rest g')
      else fill_grid a sign fk coord_map rest g)"

definition get_face_colors :: "cube_model \<Rightarrow> int \<Rightarrow> error + grid" where
  "get_face_colors s face =
     (case lookup FACE_AXES face of
        Inl e \<Rightarrow> Inl e
      | Inr (a, sign) \<Rightarrow>
          (let fk = face_key_of a sign
           in case get_coordinate_mapping a sign of
                Inl e \<Rightarrow> Inl e
              | Inr coord_map \<Rightarrow>
                  fill_grid a sign fk coord_map (cubies s) (replicate 3 (replicate 3 0))))"

subsection \<open>A caller that plays a list of moves\<close>

text \<open>
  The loop \<^verbatim>\<open>for face, direction in moves: cube.rotate_face(face, direction)\<close> of a
  caller; an exception ends it.
\<close>

fun apply_moves :: "cube_model \<Rightarrow> (int \<times> int) list \<Rightarrow> error + cube_model" where
  "apply_moves s [] = Inr s"
| "apply_moves s ((face, direction) # ms) =
     (case rotate_face s face direction of
        (Inl e, s') \<Rightarrow> Inl e
      | (Inr b, s') \<Rightarrow> apply_moves s' ms)"

section \<open>Notions for the statements and proofs\<close>

subsection \<open>Well-formed states\<close>

text \<open>
  The keys of a cubie's colour dictionary, in the order of the literal in
  \<^verbatim>\<open>face_to_axis\<close>, and the labels that face outward at a position: the label of
  axis \<open>a\<close> and sign \<open>sg\<close> faces outward where the coordinate on \<open>a\<close> is \<open>sg\<close>.
\<close>

definition face_keys :: "face_key list" where
  "face_keys = map fst face_to_axis"

definition outward :: "pos \<Rightarrow> face_key \<Rightarrow> bool" where
  "outward p k =
     (case map_of face_to_axis k of
        None \<Rightarrow> False
      | Some (a, sg) \<Rightarrow> coord p a = sg)"

text \<open>
  A cubie stored under a position is well formed when it records that position and has
  a colour on every label that faces outward there. A cube state is well formed when its
  dictionary has no key twice and all its cubies are well formed. The fresh cube is such
  a state and \<^verbatim>\<open>rotate_face\<close> keeps the property (\<open>init_state_ok\<close>,
  \<open>apply_moves_valid\<close> below).
\<close>

definition cubie_ok :: "pos \<times> cubie \<Rightarrow> bool" where
  "cubie_ok pc =
     ((cubie_x (snd pc), cubie_y (snd pc), cubie_z (snd pc)) = fst pc \<and>
      list_all (\<lambda>k. outward (fst pc) k \<longrightarrow> colors (snd pc) k \<noteq> None) face_keys)"

definition state_ok :: "cube_model \<Rightarrow> bool" where
  "state_ok s = (distinct (map fst (cubies s)) \<and> list_all cubie_ok (cubies s))"

subsection \<open>What a turn does, in closed form\<close>

text \<open>
  The dictionary \<^verbatim>\<open>face_mapping\<close> that \<^verbatim>\<open>_rotate_cubie_colors\<close> computes for each
  axis and direction (\<open>face_mapping_eq\<close>), and the inverse of that relabelling.
\<close>

definition key_perm :: "axis \<Rightarrow> int \<Rightarrow> (face_key \<times> face_key) list" where
  "key_perm a d =
     (case a of
        X \<Rightarrow> if d = 1
             then [(XPlus, XPlus), (XMinus, XMinus), (YPlus, ZPlus), (YMinus, ZMinus),
                   (ZPlus, YMinus), (ZMinus, YPlus)]
             else [(XPlus, XPlus), (XMinus, XMinus), (YPlus, ZMinus), (YMinus, ZPlus),
                   (ZPlus, YPlus), (ZMinus, YMinus)]
      | Y \<Rightarrow> if d = 1
             then [(YPlus, YPlus), (YMinus, YMinus), (XPlus, ZPlus), (XMinus, ZMinus),
                   (ZPlus, XMinus), (ZMinus, XPlus)]
             else [(YPlus, YPlus), (YMinus, YMinus), (XPlus, ZMinus), (XMinus, ZPlus),
                   (ZPlus, XPlus), (ZMinus, XMinus)]
      | Z \<Rightarrow> if d = 1
             then [(ZPlus, ZPlus), (ZMinus, ZMinus), (XPlus, YPlus), (XMinus, YMinus),
                   (YPlus, XMinus), (YMinus, XPlus)]
             else [(ZPlus, ZPlus), (ZMinus, ZMinus), (XPlus, YMinus), (XMinus, YPlus),
                   (YPlus, XPlus), (YMinus, XMinus)])"

definition key_back :: "axis \<Rightarrow> int \<Rightarrow> face_key \<Rightarrow> face_key" where
  "key_back a d k =
     (case a of
        X \<Rightarrow> (if d = 1
              then (case k of XPlus \<Rightarrow> XPlus | XMinus \<Rightarrow> XMinus | ZPlus \<Rightarrow> YPlus
                      | ZMinus \<Rightarrow> YMinus | YMinus \<Rightarrow> ZPlus | YPlus \<Rightarrow> ZMinus)
              else (case k of XPlus \<Rightarrow> XPlus | XMinus \<Rightarrow> XMinus | ZMinus \<Rightarrow> YPlus
                      | ZPlus \<Rightarrow> YMinus | YPlus \<Rightarrow> ZPlus | YMinus \<Rightarrow> ZMinus))
      | Y \<Rightarrow> (if d = 1
              then (case k of YPlus \<Rightarrow> YPlus | YMinus \<Rightarrow> YMinus | ZPlus \<Rightarrow> XPlus
                      | ZMinus \<Rightarrow> XMinus | XMinus \<Rightarrow> ZPlus | XPlus \<Rightarrow> ZMinus)
              else (case k of YPlus \<Rightarrow> YPlus | YMinus \<Rightarrow> YMinus | ZMinus \<Rightarrow> XPlus
                      | ZPlus \<Rightarrow> XMinus | XPlus \<Rightarrow> ZPlus | XMinus \<Rightarrow> ZMinus))
      | Z \<Rightarrow> (if d = 1
              then (case k of ZPlus \<Rightarrow> ZPlus | ZMinus \<Rightarrow> ZMinus | YPlus \<Rightarrow> XPlus
                      | YMinus \<Rightarrow> XMinus | XMinus \<Rightarrow> YPlus | XPlus \<Rightarrow> YMinus)
              else (case k of ZPlus \<Rightarrow> ZPlus | ZMinus \<Rightarrow> ZMinus | YMinus \<Rightarrow> XPlus
                      | YPlus \<Rightarrow> XMinus | XPlus \<Rightarrow> YPlus | XMinus \<Rightarrow> YMinus)))"

text \<open>
  The new position of a cubie on the turning face, and the cubie that the loop of
  \<^verbatim>\<open>rotate_face\<close> stores there (\<open>move_face_cubies_eq\<close>).
\<close>

definition rot_pos :: "axis \<Rightarrow> int \<Rightarrow> pos \<Rightarrow> pos" where
  "rot_pos a ed p =
     (case a of
        X \<Rightarrow> (if ed = 1 then (coord p X, - coord p Z, coord p Y) else (coord p X, coord p Z, - coord p Y))
      | Y \<Rightarrow> (if ed = 1 then (- coord p Z, coord p Y, coord p X) else (coord p Z, coord p Y, - coord p X))
      | Z \<Rightarrow> (if ed = 1 then (- coord p Y, coord p X, coord p Z) else (coord p Y, - coord p X, coord p Z)))"

definition move_cubie :: "axis \<Rightarrow> int \<Rightarrow> pos \<times> cubie \<Rightarrow> pos \<times> cubie" where
  "move_cubie a ed pc =
     (let np = rot_pos a ed (fst pc)
      in (np, apply_face_mapping (snd pc) (key_perm a ed)
                (Cubie (coord np X) (coord np Y) (coord np Z))))"

text \<open>
  The dictionary after a turn about axis \<open>a\<close> of the layer with coordinate \<open>sg\<close>:
  the moved cubies of the face first, then the others (\<open>rotate_face_turn\<close>).
\<close>

definition on_face :: "axis \<Rightarrow> int \<Rightarrow> pos \<times> cubie \<Rightarrow> bool" where
  "on_face a sg pc = (coord (fst pc) a = sg)"

definition turn :: "axis \<Rightarrow> int \<Rightarrow> int \<Rightarrow> (pos \<times> cubie) list \<Rightarrow> (pos \<times> cubie) list" where
  "turn a sg ed cs =
     map (move_cubie a ed) (filter (on_face a sg) cs) @ filter (\<lambda>pc. \<not> on_face a sg pc) cs"

definition turn_move :: "int \<times> int \<Rightarrow> (pos \<times> cubie) list \<Rightarrow> (pos \<times> cubie) list" where
  "turn_move m cs =
     (case map_of FACE_AXES (fst m) of
        None \<Rightarrow> cs
      | Some (a, sg) \<Rightarrow> turn a sg (snd m * sg) cs)"

fun turns :: "(int \<times> int) list \<Rightarrow> (pos \<times> cubie) list \<Rightarrow> (pos \<times> cubie) list" where
  "turns [] cs = cs"
| "turns (m # ms) cs = turns ms (turn_move m cs)"

subsection \<open>Moves, inverse moves and facelets\<close>

text \<open>
  A valid move has a face in 0..5 and a direction +1 or -1. The inverse of a list of
  moves is the list reversed with every direction negated.
\<close>

definition valid_move :: "int \<times> int \<Rightarrow> bool" where
  "valid_move m = (0 \<le> fst m \<and> fst m \<le> 5 \<and> (snd m = 1 \<or> snd m = -1))"

definition inverse_moves :: "(int \<times> int) list \<Rightarrow> (int \<times> int) list" where
  "inverse_moves ms = map (\<lambda>(face, direction). (face, - direction)) (rev ms)"

text \<open>
  The visible facelets of a cube: every entry of every cubie's colour dictionary that is
  not \<^verbatim>\<open>None\<close>. The solved cube's multiset has nine facelets of each colour.
\<close>

definition cubie_colors :: "pos \<times> cubie \<Rightarrow> int list" where
  "cubie_colors pc = List.map_filter (colors (snd pc)) face_keys"

definition facelet_colors :: "cube_model \<Rightarrow> int list" where
  "facelet_colors s = concat (map cubie_colors (cubies s))"

definition solved_colors :: "int multiset" where
  "solved_colors =
     replicate_mset 9 WHITE + replicate_mset 9 YELLOW + replicate_mset 9 RED +
     replicate_mset 9 ORANGE + replicate_mset 9 BLUE + replicate_mset 9 GREEN"

section \<open>Lemmas\<close>

subsection \<open>The tables and the colour relabelling\<close>

lemma other_axes_simps:
  "other_axes X = [Y, Z]" "other_axes Y = [X, Z]" "other_axes Z = [X, Y]"
  by (simp_all add: other_axes_def range3_def)

lemma axis_to_face_eq:
  "axis_to_face = [((X, 1), XPlus), ((X, - 1), XMinus), ((Y, 1), YPlus), ((Y, - 1), YMinus),
  ((Z, 1), ZPlus), ((Z, - 1), ZMinus)]"
  by (simp add: axis_to_face_def face_to_axis_def)

lemma new_face_key_simps:
  "new_face_key a1 a2 d XPlus = lookup axis_to_face (if X = a1 then (if d = 1 then (a2, 1) else (a2, -1)) else (if d = 1 then (a1, -1) else (a1, 1)))"
  "new_face_key a1 a2 d XMinus = lookup axis_to_face (if X = a1 then (if d = 1 then (a2, -1) else (a2, 1)) else (if d = 1 then (a1, 1) else (a1, -1)))"
  "new_face_key a1 a2 d YPlus = lookup axis_to_face (if Y = a1 then (if d = 1 then (a2, 1) else (a2, -1)) else (if d = 1 then (a1, -1) else (a1, 1)))"
  "new_face_key a1 a2 d YMinus = lookup axis_to_face (if Y = a1 then (if d = 1 then (a2, -1) else (a2, 1)) else (if d = 1 then (a1, 1) else (a1, -1)))"
  "new_face_key a1 a2 d ZPlus = lookup axis_to_face (if Z = a1 then (if d = 1 then (a2, 1) else (a2, -1)) else (if d = 1 then (a1, -1) else (a1, 1)))"
  "new_face_key a1 a2 d ZMinus = lookup axis_to_face (if Z = a1 then (if d = 1 then (a2, -1) else (a2, 1)) else (if d = 1 then (a1, 1) else (a1, -1)))"
  by (simp_all add: new_face_key_def lookup_def face_to_axis_def)

lemma face_mapping_eq: "face_mapping a d = Inr (key_perm a d)"
  by (cases a; cases "d = 1")
     (simp_all add: face_mapping_def key_perm_def other_axes_simps face_to_axis_def
        new_face_key_simps axis_to_face_eq lookup_def)

lemma key_back_find:
  "map_of (map (\<lambda>(k1, k2). (k2, k1)) (key_perm a d)) k = Some (key_back a d k)"
  by (cases a; cases "d = 1"; cases k) (simp_all add: key_perm_def key_back_def)

lemma distinct_key_perm: "distinct (map snd (key_perm a d))"
  by (cases a; cases "d = 1") (simp_all add: key_perm_def)

lemma apply_face_mapping_Cons:
  "apply_face_mapping c ((k1, k2) # fm) nc =
     apply_face_mapping c fm
       (case colors c k1 of None \<Rightarrow> nc | Some v \<Rightarrow> nc\<lparr>colors := (colors nc)(k2 := Some v)\<rparr>)"
  by (simp add: apply_face_mapping_def)

lemma apply_face_mapping_coords:
  "cubie_x (apply_face_mapping c fm nc) = cubie_x nc \<and>
   cubie_y (apply_face_mapping c fm nc) = cubie_y nc \<and>
   cubie_z (apply_face_mapping c fm nc) = cubie_z nc \<and>
   cubie.more (apply_face_mapping c fm nc) = cubie.more nc"
proof (induction fm arbitrary: nc)
  case Nil
  show ?case by (simp add: apply_face_mapping_def)
next
  case (Cons kk fm)
  obtain k1 k2 where kk: "kk = (k1, k2)" by (cases kk)
  show ?case
    by (simp add: kk apply_face_mapping_Cons Cons.IH split: option.split)
qed

lemma apply_face_mapping_colors:
  "distinct (map snd fm) \<Longrightarrow>
   colors (apply_face_mapping c fm nc) k =
     (case map_of (map (\<lambda>(k1, k2). (k2, k1)) fm) k of
        None \<Rightarrow> colors nc k
      | Some k1 \<Rightarrow> (case colors c k1 of None \<Rightarrow> colors nc k | Some v \<Rightarrow> Some v))"
proof (induction fm arbitrary: nc)
  case Nil
  show ?case by (simp add: apply_face_mapping_def)
next
  case (Cons kk fm)
  obtain k1 k2 where kk: "kk = (k1, k2)" by (cases kk)
  from Cons.prems have d: "distinct (map snd fm)" and n: "k2 \<notin> snd ` set fm"
    by (simp_all add: kk)
  have none: "map_of (map (\<lambda>(k1, k2). (k2, k1)) fm) k2 = None"
    using n by (force simp: map_of_eq_None_iff)
  have other: "map_of (map (\<lambda>(k1, k2). (k2, k1)) fm) k = Some k' \<Longrightarrow> k \<noteq> k2" for k'
    using none by auto
  show ?case
    unfolding kk apply_face_mapping_Cons Cons.IH [OF d]
    using none other
    by (auto split: option.split)
qed

subsection \<open>One cubie of the turning face\<close>

lemma move_face_cubies_Cons:
  "move_face_cubies a ed (pc # xs) acc =
     move_face_cubies a ed xs
       (AList.update (fst (move_cubie a ed pc)) (snd (move_cubie a ed pc)) acc)"
proof -
  obtain px py pz c where pc: "pc = ((px, py, pz), c)" by (cases pc) auto
  show ?thesis
    unfolding pc
    by (cases a)
       (simp_all add: other_axes_simps rotate_cubie_colors_def face_mapping_eq
          move_cubie_def rot_pos_def Let_def)
qed

lemma move_face_cubies_eq:
  "move_face_cubies a ed xs acc =
     Inr (fold (\<lambda>pc. AList.update (fst (move_cubie a ed pc)) (snd (move_cubie a ed pc))) xs acc)"
proof (induction xs arbitrary: acc)
  case Nil
  show ?case by simp
next
  case (Cons pc xs)
  show ?case
    by (simp only: move_face_cubies_Cons Cons.IH fold_simps)
qed

lemma move_cubie_else: "ed \<noteq> 1 \<Longrightarrow> move_cubie a ed = move_cubie a (- 1)"
  by (simp add: fun_eq_iff move_cubie_def rot_pos_def key_perm_def)

lemma Cubie_colors_None: "colors (Cubie px py pz) k = None \<longleftrightarrow> \<not> outward (px, py, pz) k"
  by (cases k) (simp_all add: Cubie_def outward_def face_to_axis_def)

lemma outward_rot_pos: "outward (rot_pos a ed p) k \<longleftrightarrow> outward p (key_back a ed k)"
proof -
  obtain px py pz where p: "p = (px, py, pz)" by (cases p)
  show ?thesis
    unfolding p
    by (cases a; cases "ed = 1"; cases k) (simp_all add: rot_pos_def key_back_def outward_def face_to_axis_def)
qed

lemma cubie_ok_outward: "cubie_ok (p, c) \<Longrightarrow> outward p k \<Longrightarrow> colors c k \<noteq> None"
  by (cases k) (simp_all add: cubie_ok_def face_keys_def face_to_axis_def)

lemma move_cubie_colors:
  assumes "cubie_ok (p, c)"
  shows "colors (snd (move_cubie a ed (p, c))) k = colors c (key_back a ed k)"
proof -
  obtain qx qy qz where q: "rot_pos a ed p = (qx, qy, qz)" by (cases "rot_pos a ed p")
  have "colors c (key_back a ed k) = None \<Longrightarrow> colors (Cubie qx qy qz) k = None"
    using cubie_ok_outward [OF assms, of "key_back a ed k"] outward_rot_pos [of a ed p k]
    by (auto simp: Cubie_colors_None q)
  then show ?thesis
    by (simp add: move_cubie_def q apply_face_mapping_colors distinct_key_perm key_back_find
        split: option.split)
qed

lemma move_cubie_coords:
  "fst (move_cubie a ed pc) = rot_pos a ed (fst pc)"
  "(cubie_x (snd (move_cubie a ed pc)), cubie_y (snd (move_cubie a ed pc)),
    cubie_z (snd (move_cubie a ed pc))) = rot_pos a ed (fst pc)"
  "cubie.more (snd (move_cubie a ed pc)) = ()"
  by (cases "rot_pos a ed (fst pc)";
      simp add: move_cubie_def apply_face_mapping_coords Cubie_def)+

lemma move_cubie_ok: "cubie_ok pc \<Longrightarrow> cubie_ok (move_cubie a ed pc)"
proof -
  assume ok: "cubie_ok pc"
  obtain p c where pc: "pc = (p, c)" by (cases pc)
  have "outward (rot_pos a ed p) k \<Longrightarrow> colors (snd (move_cubie a ed (p, c))) k \<noteq> None" for k
    using ok cubie_ok_outward [of p c "key_back a ed k"]
    by (simp add: move_cubie_colors pc outward_rot_pos)
  then show ?thesis
    using move_cubie_coords [of a ed pc]
    by (simp add: cubie_ok_def pc list_all_iff)
qed

lemma rot_pos_coord [simp]: "coord (rot_pos a ed p) a = coord p a"
  by (cases p; cases a) (simp_all add: rot_pos_def)

lemma rot_pos_inj: "rot_pos a ed p = rot_pos a ed q \<Longrightarrow> p = q"
  by (cases p; cases q; cases a; cases "ed = 1") (simp_all add: rot_pos_def)

lemma rot_pos_inj_on: "inj_on (rot_pos a ed) A"
  by (rule inj_onI) (rule rot_pos_inj)

lemma rot_pos4: "rot_pos a ed (rot_pos a ed (rot_pos a ed (rot_pos a ed p))) = p"
  by (cases p; cases a; cases "ed = 1") (simp_all add: rot_pos_def)

lemma key_back4: "key_back a ed (key_back a ed (key_back a ed (key_back a ed k))) = k"
  by (cases a; cases "ed = 1"; cases k) (simp_all add: key_back_def)

lemma rot_pos_inverse: "(e1 = 1) \<noteq> (e2 = 1) \<Longrightarrow> rot_pos a e2 (rot_pos a e1 p) = p"
  by (cases p; cases a; cases "e1 = 1"; cases "e2 = 1") (simp_all add: rot_pos_def)

lemma key_back_inverse: "(e1 = 1) \<noteq> (e2 = 1) \<Longrightarrow> key_back a e1 (key_back a e2 k) = k"
  by (cases a; cases "e1 = 1"; cases "e2 = 1"; cases k) (simp_all add: key_back_def)

lemma cubie_ok_eqI:
  assumes "cubie_ok pc" and "cubie_ok qc" and "fst pc = fst qc"
    and "\<And>k. colors (snd pc) k = colors (snd qc) k"
  shows "pc = qc"
proof -
  have "snd pc = snd qc"
  proof (rule cubie.equality)
    show "colors (snd pc) = colors (snd qc)" using assms(4) by (rule ext)
  qed (use assms(1-3) in \<open>auto simp add: cubie_ok_def prod_eq_iff\<close>)
  with assms(3) show ?thesis by (simp add: prod_eq_iff)
qed

lemma move_cubie4:
  assumes "cubie_ok pc"
  shows "move_cubie a ed (move_cubie a ed (move_cubie a ed (move_cubie a ed pc))) = pc"
proof -
  let ?m = "move_cubie a ed"
  have ok1: "cubie_ok (?m pc)" using assms by (rule move_cubie_ok)
  have ok2: "cubie_ok (?m (?m pc))" using ok1 by (rule move_cubie_ok)
  have ok3: "cubie_ok (?m (?m (?m pc)))" using ok2 by (rule move_cubie_ok)
  have ok4: "cubie_ok (?m (?m (?m (?m pc))))" using ok3 by (rule move_cubie_ok)
  have col: "colors (snd (?m qc)) k = colors (snd qc) (key_back a ed k)" if "cubie_ok qc" for qc k
    using move_cubie_colors [of "fst qc" "snd qc" a ed k] that by simp
  show ?thesis
  proof (rule cubie_ok_eqI [OF ok4 assms])
    show "fst (?m (?m (?m (?m pc)))) = fst pc"
      by (simp add: move_cubie_coords rot_pos4)
    show "colors (snd (?m (?m (?m (?m pc))))) k = colors (snd pc) k" for k
      by (simp add: col ok3 ok2 ok1 assms key_back4)
  qed
qed

lemma move_cubie_inverse:
  assumes "cubie_ok pc" and "(e1 = 1) \<noteq> (e2 = 1)"
  shows "move_cubie a e2 (move_cubie a e1 pc) = pc"
proof -
  have ok1: "cubie_ok (move_cubie a e1 pc)" using assms(1) by (rule move_cubie_ok)
  have ok2: "cubie_ok (move_cubie a e2 (move_cubie a e1 pc))" using ok1 by (rule move_cubie_ok)
  have col: "colors (snd (move_cubie a e qc)) k = colors (snd qc) (key_back a e k)"
    if "cubie_ok qc" for qc k e
    using move_cubie_colors [of "fst qc" "snd qc" a e k] that by simp
  show ?thesis
  proof (rule cubie_ok_eqI [OF ok2 assms(1)])
    show "fst (move_cubie a e2 (move_cubie a e1 pc)) = fst pc"
      by (simp add: move_cubie_coords rot_pos_inverse [OF assms(2)])
    show "colors (snd (move_cubie a e2 (move_cubie a e1 pc))) k = colors (snd pc) k" for k
      by (simp add: col ok1 assms(1) key_back_inverse [OF assms(2)])
  qed
qed

subsection \<open>The dictionary after a turn\<close>

lemma update_fresh: "k \<notin> fst ` set al \<Longrightarrow> AList.update k v al = al @ [(k, v)]"
  by (induction al) auto

lemma fold_update_fresh:
  "distinct (map fst xs) \<Longrightarrow> fst ` set xs \<inter> fst ` set acc = {} \<Longrightarrow>
   fold (\<lambda>pc. AList.update (fst pc) (snd pc)) xs acc = acc @ xs"
proof (induction xs arbitrary: acc)
  case Nil
  show ?case by simp
next
  case (Cons x xs)
  have fresh: "fst x \<notin> fst ` set acc" using Cons.prems(2) by auto
  have "fold (\<lambda>pc. AList.update (fst pc) (snd pc)) xs (acc @ [x]) = (acc @ [x]) @ xs"
    using Cons.prems by (intro Cons.IH) auto
  then show ?case
    by (simp add: update_fresh [OF fresh])
qed

lemma fold_off_face:
  "fold (\<lambda>(p, c) nc. if coord p a \<noteq> sg then AList.update p c nc else nc) cs acc =
   fold (\<lambda>pc. AList.update (fst pc) (snd pc)) (filter (\<lambda>pc. \<not> on_face a sg pc) cs) acc"
  by (induction cs arbitrary: acc) (auto simp: on_face_def)

lemma on_face_move [simp]: "on_face a sg (move_cubie a ed pc) = on_face a sg pc"
  by (simp add: on_face_def move_cubie_coords)

lemma map_fst_move: "map fst (map (move_cubie a ed) xs) = map (rot_pos a ed) (map fst xs)"
  by (simp add: move_cubie_coords)

lemma keys_moved_on: "k \<in> fst ` set (map (move_cubie a ed) (filter (on_face a sg) cs)) \<Longrightarrow> coord k a = sg"
  by (auto simp: on_face_def move_cubie_coords)

lemma keys_off: "k \<in> fst ` set (filter (\<lambda>pc. \<not> on_face a sg pc) cs) \<Longrightarrow> coord k a \<noteq> sg"
  by (auto simp: on_face_def)

lemma keys_disjoint:
  "fst ` set (filter (\<lambda>pc. \<not> on_face a sg pc) cs) \<inter>
   fst ` set (map (move_cubie a ed) (filter (on_face a sg) cs)) = {}"
  using keys_moved_on [of _ a ed sg cs] keys_off [of _ a sg cs] by blast

lemma distinct_moved:
  assumes "distinct (map fst cs)"
  shows "distinct (map fst (map (move_cubie a ed) (filter (on_face a sg) cs)))"
proof -
  have "distinct (map fst (filter (on_face a sg) cs))"
    using assms by (rule distinct_map_filter)
  then have "distinct (map (rot_pos a ed) (map fst (filter (on_face a sg) cs)))"
    by (rule iffD2 [OF distinct_map, OF conjI]) (rule rot_pos_inj_on)
  then show ?thesis
    by (simp only: map_fst_move)
qed

lemma distinct_turn:
  assumes "distinct (map fst cs)"
  shows "distinct (map fst (turn a sg ed cs))"
proof -
  have 2: "distinct (map fst (filter (\<lambda>pc. \<not> on_face a sg pc) cs))"
    using assms by (simp add: distinct_map_filter)
  have "distinct (map fst (map (move_cubie a ed) (filter (on_face a sg) cs)) @
                  map fst (filter (\<lambda>pc. \<not> on_face a sg pc) cs))"
    using distinct_moved [OF assms, of a ed sg] 2 keys_disjoint [of a sg cs ed]
    by (simp only: distinct_append set_map) blast
  then show ?thesis
    by (simp add: turn_def)
qed

lemma move_face_cubies_turn:
  assumes "distinct (map fst cs)"
  shows "move_face_cubies a ed (filter (on_face a sg) cs) [] =
           Inr (map (move_cubie a ed) (filter (on_face a sg) cs))"
proof -
  have "fold (\<lambda>pc. AList.update (fst (move_cubie a ed pc)) (snd (move_cubie a ed pc)))
          (filter (on_face a sg) cs) [] =
        fold (\<lambda>pc. AList.update (fst pc) (snd pc))
          (map (move_cubie a ed) (filter (on_face a sg) cs)) []"
    by (simp add: fold_map comp_def)
  also have "\<dots> = map (move_cubie a ed) (filter (on_face a sg) cs)"
    using fold_update_fresh [OF distinct_moved [OF assms], where acc = "[]"] by simp
  finally show ?thesis
    by (simp add: move_face_cubies_eq)
qed

lemma str_int_ok_small: "\<bar>n\<bar> < 10 \<Longrightarrow> str_int_ok n"
proof -
  assume "\<bar>n\<bar> < 10"
  moreover have "(10::int) \<le> 10 ^ int_max_str_digits"
    by (rule self_le_power) (simp_all add: int_max_str_digits_def)
  ultimately show ?thesis
    by (simp add: str_int_ok_def)
qed

lemma str_int_ok_face: "map_of FACE_AXES face = Some (a, sg) \<Longrightarrow> str_int_ok face"
  by (rule str_int_ok_small) (auto simp: FACE_AXES_def split: if_splits)

lemma str_int_ok_limit: "\<not> str_int_ok (10 ^ int_max_str_digits)"
  by (simp add: str_int_ok_def)

lemma rotate_face_unprintable:
  assumes "\<not> animating s" and "\<not> str_int_ok d"
  shows "rotate_face s face d = (Inl ValueError, s)"
  using assms by (simp add: rotate_face_def print_rotating_def)

lemma rotate_face_turn:
  assumes "\<not> animating s" and "distinct (map fst (cubies s))"
    and "map_of FACE_AXES face = Some (a, sg)" and "str_int_ok d"
  shows "rotate_face s face d =
           (Inr True, s\<lparr>history := history s @ [(face, d)],
                        cubies := turn a sg (d * sg) (cubies s)\<rparr>)"
proof -
  have f: "(\<lambda>(p, c). coord p a = sg) = on_face a sg"
    by (auto simp: on_face_def)
  have off: "fold (\<lambda>pc. AList.update (fst pc) (snd pc))
               (filter (\<lambda>pc. \<not> on_face a sg pc) (cubies s))
               (map (move_cubie a (d * sg)) (filter (on_face a sg) (cubies s))) =
             turn a sg (d * sg) (cubies s)"
    unfolding turn_def
  proof (rule fold_update_fresh)
    show "distinct (map fst (filter (\<lambda>pc. \<not> on_face a sg pc) (cubies s)))"
      using assms(2) by (simp add: distinct_map_filter)
    show "fst ` set (filter (\<lambda>pc. \<not> on_face a sg pc) (cubies s)) \<inter>
          fst ` set (map (move_cubie a (d * sg)) (filter (on_face a sg) (cubies s))) = {}"
      by (rule keys_disjoint)
  qed
  show ?thesis
    using assms(1,3,4) str_int_ok_face [OF assms(3)]
    by (simp add: rotate_face_def print_rotating_def lookup_def f
        move_face_cubies_turn [OF assms(2)] fold_off_face off)
qed

lemma rotate_face_any_state:
  assumes "\<not> animating s" and "map_of FACE_AXES face = Some (a, sg)" and "str_int_ok d"
  shows "rotate_face s face d =
           (Inr True,
            s\<lparr>history := history s @ [(face, d)],
              cubies :=
                fold (\<lambda>(p, c) nc. if coord p a \<noteq> sg then AList.update p c nc else nc)
                  (cubies s)
                  (fold (\<lambda>pc. AList.update (fst (move_cubie a (d * sg) pc))
                                 (snd (move_cubie a (d * sg) pc)))
                     (filter (\<lambda>(p, c). coord p a = sg) (cubies s)) [])\<rparr>)"
  using assms str_int_ok_face [OF assms(2)]
  by (simp add: rotate_face_def print_rotating_def lookup_def Let_def move_face_cubies_eq)

lemma rotate_face_invalid:
  assumes "\<not> animating s" and "map_of FACE_AXES face = None"
    and "str_int_ok face" and "str_int_ok d"
  shows "rotate_face s face d = (Inl KeyError, s\<lparr>history := history s @ [(face, d)]\<rparr>)"
  using assms by (simp add: rotate_face_def print_rotating_def lookup_def)

lemma filter_on_turn:
  "filter (on_face a sg) (turn a sg ed cs) = map (move_cubie a ed) (filter (on_face a sg) cs)"
  by (simp add: turn_def filter_map comp_def)

lemma filter_off_turn:
  "filter (\<lambda>pc. \<not> on_face a sg pc) (turn a sg ed cs) = filter (\<lambda>pc. \<not> on_face a sg pc) cs"
  by (simp add: turn_def filter_map comp_def)

lemma turn_again:
  "turn a sg e2 (turn a sg e1 cs) =
     map (move_cubie a e2) (map (move_cubie a e1) (filter (on_face a sg) cs)) @
     filter (\<lambda>pc. \<not> on_face a sg pc) cs"
  unfolding turn_def [of a sg e2] filter_on_turn filter_off_turn ..

lemma cubie_ok_turn: "list_all cubie_ok cs \<Longrightarrow> list_all cubie_ok (turn a sg ed cs)"
  by (auto simp: turn_def list_all_iff move_cubie_ok)

lemma turn4:
  assumes "list_all cubie_ok cs"
  shows "turn a sg ed (turn a sg ed (turn a sg ed (turn a sg ed cs))) =
           filter (on_face a sg) cs @ filter (\<lambda>pc. \<not> on_face a sg pc) cs"
proof -
  have "map (\<lambda>pc. move_cubie a ed (move_cubie a ed (move_cubie a ed (move_cubie a ed pc))))
          (filter (on_face a sg) cs) = filter (on_face a sg) cs"
    by (rule map_idI) (use assms in \<open>simp add: list_all_iff move_cubie4\<close>)
  then have "map (move_cubie a ed) (map (move_cubie a ed) (map (move_cubie a ed)
          (map (move_cubie a ed) (filter (on_face a sg) cs)))) = filter (on_face a sg) cs"
    by (simp add: comp_def)
  moreover have "turn a sg ed (turn a sg ed (turn a sg ed (turn a sg ed cs))) =
      map (move_cubie a ed) (map (move_cubie a ed) (map (move_cubie a ed)
          (map (move_cubie a ed) (filter (on_face a sg) cs)))) @
      filter (\<lambda>pc. \<not> on_face a sg pc) cs"
    by (simp only: turn_again [where cs = "turn a sg ed (turn a sg ed cs)"]
        filter_on_turn filter_off_turn)
  ultimately show ?thesis
    by (simp only:)
qed

lemma turn_inverse:
  assumes "list_all cubie_ok cs" and "(e1 = 1) \<noteq> (e2 = 1)"
  shows "turn a sg e2 (turn a sg e1 cs) =
           filter (on_face a sg) cs @ filter (\<lambda>pc. \<not> on_face a sg pc) cs"
proof -
  have "map (\<lambda>pc. move_cubie a e2 (move_cubie a e1 pc)) (filter (on_face a sg) cs) =
        filter (on_face a sg) cs"
    by (rule map_idI) (use assms in \<open>simp add: list_all_iff move_cubie_inverse\<close>)
  then have "map (move_cubie a e2) (map (move_cubie a e1) (filter (on_face a sg) cs)) =
        filter (on_face a sg) cs"
    by (simp add: comp_def)
  then show ?thesis
    by (simp only: turn_again)
qed

lemma map_of_mset_eq:
  assumes "mset xs = mset ys" and "distinct (map fst xs)"
  shows "map_of xs = map_of ys"
proof -
  have "mset (map fst xs) = mset (map fst ys)" using assms(1) by (metis mset_map)
  then have "distinct (map fst ys)" using assms(2) by (metis mset_eq_imp_distinct_iff)
  moreover have "set xs = set ys" using assms(1) by (rule mset_eq_setD)
  ultimately show ?thesis using assms(2) by (simp add: map_of_inject_set)
qed

lemma map_of_split_face:
  "distinct (map fst cs) \<Longrightarrow>
   map_of (filter (on_face a sg) cs @ filter (\<lambda>pc. \<not> on_face a sg pc) cs) = map_of cs"
  by (rule map_of_mset_eq [symmetric]) simp_all

lemma mset_turn: "mset (turn a sg ed cs) =
    image_mset (move_cubie a ed) (filter_mset (on_face a sg) (mset cs)) +
    filter_mset (\<lambda>pc. \<not> on_face a sg pc) (mset cs)"
  by (simp add: turn_def)

subsection \<open>Valid faces, the fresh cube and lists of moves\<close>

lemma FACE_AXES_valid:
  assumes "0 \<le> face" and "face \<le> 5"
  obtains a sg where "map_of FACE_AXES face = Some (a, sg)" and "sg = 1 \<or> sg = -1"
proof -
  from assms have "face = 0 \<or> face = 1 \<or> face = 2 \<or> face = 3 \<or> face = 4 \<or> face = 5"
    by arith
  then show thesis
    by (elim disjE) (rule that [of "fst (the (map_of FACE_AXES face))" "snd (the (map_of FACE_AXES face))"]; simp add: FACE_AXES_def)+
qed

lemma FACE_AXES_sign: "map_of FACE_AXES face = Some (a, sg) \<Longrightarrow> sg = 1 \<or> sg = - 1"
  by (auto simp: FACE_AXES_def split: if_splits)

lemma init_cubies:
  "cubies CubeModel_init =
     map (\<lambda>(px, py, pz). ((px, py, pz), Cubie px py pz))
       [(- 1, - 1, - 1), (- 1, - 1, 0), (- 1, - 1, 1), (- 1, 0, - 1), (- 1, 0, 0),
        (- 1, 0, 1), (- 1, 1, - 1), (- 1, 1, 0), (- 1, 1, 1), (0, - 1, - 1),
        (0, - 1, 0), (0, - 1, 1), (0, 0, - 1), (0, 0, 1), (0, 1, - 1), (0, 1, 0),
        (0, 1, 1), (1, - 1, - 1), (1, - 1, 0), (1, - 1, 1), (1, 0, - 1),
        (1, 0, 0), (1, 0, 1), (1, 1, - 1), (1, 1, 0), (1, 1, 1)]"
  by (simp add: CubeModel_init_def)

lemma init_state_ok: "state_ok CubeModel_init"
  by code_simp

lemma init_not_animating: "\<not> animating CubeModel_init"
  by (simp add: CubeModel_init_def)

lemma init_history: "history CubeModel_init = []"
  by (simp add: CubeModel_init_def)

lemma rotate_face_step:
  assumes "\<not> animating s" and "distinct (map fst (cubies s))"
    and "map_of FACE_AXES face = Some (a, sg)" and "str_int_ok d"
  shows "\<exists>s'. rotate_face s face d = (Inr True, s') \<and> \<not> animating s' \<and>
              cubies s' = turn a sg (d * sg) (cubies s) \<and>
              distinct (map fst (cubies s')) \<and> history s' = history s @ [(face, d)]"
  using rotate_face_turn [OF assms] distinct_turn [OF assms(2), of a sg "d * sg"] assms(1)
  by simp

lemma rotate_face_inverse_pair:
  assumes "0 \<le> face" and "face \<le> 5" and "\<not> animating s" and "state_ok s"
    and "(d1 = 1 \<and> d2 = -1) \<or> (d1 = -1 \<and> d2 = 1)"
  shows "\<exists>s1 s2.
           rotate_face s face d1 = (Inr True, s1) \<and>
           rotate_face s1 face d2 = (Inr True, s2) \<and>
           map_of (cubies s2) = map_of (cubies s)"
proof -
  obtain a sg where f: "map_of FACE_AXES face = Some (a, sg)" and sg: "sg = 1 \<or> sg = -1"
    using FACE_AXES_valid [OF assms(1,2)] by blast
  from assms(4) have d0: "distinct (map fst (cubies s))" and ok: "list_all cubie_ok (cubies s)"
    by (simp_all add: state_ok_def)
  have opp: "(d1 * sg = 1) \<noteq> (d2 * sg = 1)"
    using assms(5) sg by auto
  have p1: "str_int_ok d1" and p2: "str_int_ok d2"
    using assms(5) by (auto intro: str_int_ok_small)
  obtain s1 where s1: "rotate_face s face d1 = (Inr True, s1)" "\<not> animating s1"
      "cubies s1 = turn a sg (d1 * sg) (cubies s)" "distinct (map fst (cubies s1))"
    using rotate_face_step [OF assms(3) d0 f p1] by blast
  obtain s2 where s2: "rotate_face s1 face d2 = (Inr True, s2)"
      "cubies s2 = turn a sg (d2 * sg) (cubies s1)"
    using rotate_face_step [OF s1(2) s1(4) f p2] by blast
  have "cubies s2 = filter (on_face a sg) (cubies s) @ filter (\<lambda>pc. \<not> on_face a sg pc) (cubies s)"
    unfolding s2(2) s1(3) by (rule turn_inverse [OF ok opp])
  then have "map_of (cubies s2) = map_of (cubies s)"
    by (simp only: map_of_split_face [OF d0])
  with s1(1) s2(1) show ?thesis by blast
qed

lemma rotate_face_valid:
  assumes "\<not> animating s" and "state_ok s" and "0 \<le> face" and "face \<le> 5"
    and "str_int_ok d"
  shows "rotate_face s face d =
           (Inr True, s\<lparr>history := history s @ [(face, d)],
                        cubies := turn_move (face, d) (cubies s)\<rparr>)"
proof -
  obtain a sg where f: "map_of FACE_AXES face = Some (a, sg)"
    using FACE_AXES_valid [OF assms(3,4)] by blast
  from assms(2) have "distinct (map fst (cubies s))" by (simp add: state_ok_def)
  from rotate_face_turn [OF assms(1) this f assms(5)] show ?thesis
    by (simp add: turn_move_def f)
qed

lemma turn_move_ok:
  assumes "distinct (map fst cs) \<and> list_all cubie_ok cs"
  shows "distinct (map fst (turn_move m cs)) \<and> list_all cubie_ok (turn_move m cs)"
  using assms by (auto simp: turn_move_def distinct_turn cubie_ok_turn split: option.split)

lemma rotate_face_valid_ok:
  assumes "\<not> animating s" and "state_ok s" and "0 \<le> face" and "face \<le> 5"
    and "str_int_ok d"
  shows "state_ok (snd (rotate_face s face d)) \<and> \<not> animating (snd (rotate_face s face d))"
  using assms turn_move_ok [of "cubies s" "(face, d)"]
  by (simp add: rotate_face_valid state_ok_def)

lemma apply_moves_valid:
  assumes "\<not> animating s" and "state_ok s"
    and "list_all (\<lambda>m. 0 \<le> fst m \<and> fst m \<le> 5 \<and> str_int_ok (snd m)) ms"
  shows "\<exists>s'. apply_moves s ms = Inr s' \<and> \<not> animating s' \<and> state_ok s' \<and>
              history s' = history s @ ms \<and> cubies s' = turns ms (cubies s)"
  using assms
proof (induction ms arbitrary: s)
  case Nil
  then show ?case by simp
next
  case (Cons m ms)
  obtain face d where m: "m = (face, d)" by (cases m)
  from Cons.prems(3) have v: "0 \<le> face" "face \<le> 5" "str_int_ok d"
    and rest: "list_all (\<lambda>m. 0 \<le> fst m \<and> fst m \<le> 5 \<and> str_int_ok (snd m)) ms"
    by (simp_all add: m)
  let ?s1 = "s\<lparr>history := history s @ [(face, d)], cubies := turn_move (face, d) (cubies s)\<rparr>"
  have r: "rotate_face s face d = (Inr True, ?s1)"
    by (rule rotate_face_valid [OF Cons.prems(1,2) v])
  have ok1: "state_ok ?s1" "\<not> animating ?s1"
    using rotate_face_valid_ok [OF Cons.prems(1,2) v] by (simp_all add: r)
  from Cons.IH [OF ok1(2) ok1(1) rest] obtain s' where
    "apply_moves ?s1 ms = Inr s'" "\<not> animating s'" "state_ok s'"
    "history s' = history ?s1 @ ms" "cubies s' = turns ms (cubies ?s1)"
    by blast
  then show ?case
    by (simp add: m r)
qed

lemma mset_turn_move_cong: "mset xs = mset ys \<Longrightarrow> mset (turn_move m xs) = mset (turn_move m ys)"
  by (simp add: turn_move_def mset_turn split: option.split)

lemma turn_move_inverse:
  assumes "list_all cubie_ok cs" and "valid_move m"
  shows "mset (turn_move (fst m, - snd m) (turn_move m cs)) = mset cs"
proof -
  from assms(2) have v: "0 \<le> fst m" "fst m \<le> 5" and d: "snd m = 1 \<or> snd m = -1"
    by (simp_all add: valid_move_def)
  obtain a sg where f: "map_of FACE_AXES (fst m) = Some (a, sg)" and sg: "sg = 1 \<or> sg = -1"
    using FACE_AXES_valid [OF v] by blast
  have "(snd m * sg = 1) \<noteq> (- snd m * sg = 1)"
    using d sg by auto
  from turn_inverse [OF assms(1) this, of a sg] show ?thesis
    by (simp add: turn_move_def f)
qed

lemma turns_append: "turns (xs @ ys) cs = turns ys (turns xs cs)"
  by (induction xs arbitrary: cs) simp_all

lemma turns_inverse:
  assumes "list_all cubie_ok cs" and "distinct (map fst cs)" and "list_all valid_move ms"
    and "mset cs' = mset (turns ms cs)"
  shows "mset (turns (inverse_moves ms) cs') = mset cs"
  using assms
proof (induction ms arbitrary: cs cs')
  case Nil
  then show ?case by (simp add: inverse_moves_def)
next
  case (Cons m ms)
  from Cons.prems(3) have vm: "valid_move m" and rest: "list_all valid_move ms" by simp_all
  have ok1: "distinct (map fst (turn_move m cs)) \<and> list_all cubie_ok (turn_move m cs)"
    using Cons.prems(1,2) by (intro turn_move_ok) simp
  have "mset (turns (inverse_moves ms) cs') = mset (turn_move m cs)"
    using Cons.IH [of "turn_move m cs" cs'] ok1 rest Cons.prems(4) by simp
  then have "mset (turn_move (fst m, - snd m) (turns (inverse_moves ms) cs')) =
             mset (turn_move (fst m, - snd m) (turn_move m cs))"
    by (rule mset_turn_move_cong)
  also have "\<dots> = mset cs"
    by (rule turn_move_inverse [OF Cons.prems(1) vm])
  finally show ?case
    by (simp add: inverse_moves_def turns_append case_prod_unfold)
qed

lemma get_solution_fold:
  "fold (\<lambda>(face, direction) solution. solution @ [(face, - direction)]) xs acc =
   acc @ map (\<lambda>(face, direction). (face, - direction)) (xs :: (int \<times> int) list)"
  by (induction xs arbitrary: acc) (simp_all add: case_prod_unfold)

lemma get_solution_eq: "get_solution s = inverse_moves (history s)"
  by (simp add: get_solution_def inverse_moves_def get_solution_fold)

lemma valid_inverse_moves: "list_all valid_move ms \<Longrightarrow> list_all valid_move (inverse_moves ms)"
  by (auto simp: list_all_iff inverse_moves_def valid_move_def)

lemma valid_move_str_int_ok: "valid_move m \<Longrightarrow> str_int_ok (snd m)"
proof -
  assume "valid_move m"
  then have "\<bar>snd m\<bar> < 10" by (auto simp: valid_move_def)
  then show ?thesis by (rule str_int_ok_small)
qed

lemma valid_move_face:
  "list_all valid_move ms \<Longrightarrow>
   list_all (\<lambda>m. 0 \<le> fst m \<and> fst m \<le> 5 \<and> str_int_ok (snd m)) ms"
  by (simp add: list_all_iff valid_move_str_int_ok) (simp add: valid_move_def)

subsection \<open>Facelets\<close>

lemma mset_map_filter_cong:
  "mset xs = mset ys \<Longrightarrow> mset (List.map_filter f xs) = mset (List.map_filter f ys)"
  by (simp add: List.map_filter_def)

lemma map_filter_map: "List.map_filter f (map g xs) = List.map_filter (\<lambda>x. f (g x)) xs"
  by (induction xs) (simp_all split: option.split)

lemma mset_key_back: "mset (map (key_back a ed) face_keys) = mset face_keys"
  by (cases a; cases "ed = 1") (simp_all add: key_back_def face_keys_def face_to_axis_def)

lemma cubie_colors_move:
  assumes "cubie_ok pc"
  shows "mset (cubie_colors (move_cubie a ed pc)) = mset (cubie_colors pc)"
proof -
  have "colors (snd (move_cubie a ed pc)) = (\<lambda>k. colors (snd pc) (key_back a ed k))"
    using move_cubie_colors [of "fst pc" "snd pc" a ed] assms by (simp add: fun_eq_iff)
  then have "cubie_colors (move_cubie a ed pc) =
             List.map_filter (colors (snd pc)) (map (key_back a ed) face_keys)"
    by (simp add: cubie_colors_def map_filter_map)
  then show ?thesis
    by (simp add: cubie_colors_def mset_map_filter_cong [OF mset_key_back])
qed

lemma mset_concat_map: "mset (concat (map f xs)) = (\<Sum>x\<in>#mset xs. mset (f x))"
  by (induction xs) simp_all

lemma facelets_turn:
  assumes "list_all cubie_ok cs"
  shows "mset (concat (map cubie_colors (turn a sg ed cs))) = mset (concat (map cubie_colors cs))"
proof -
  have "(\<Sum>x\<in>#filter_mset (on_face a sg) (mset cs). mset (cubie_colors (move_cubie a ed x))) =
        (\<Sum>x\<in>#filter_mset (on_face a sg) (mset cs). mset (cubie_colors x))"
    by (rule arg_cong [where f = sum_mset], rule image_mset_cong)
       (use assms in \<open>simp add: list_all_iff cubie_colors_move\<close>)
  then have "mset (concat (map cubie_colors (turn a sg ed cs))) =
        (\<Sum>x\<in>#filter_mset (on_face a sg) (mset cs). mset (cubie_colors x)) +
        (\<Sum>x\<in>#filter_mset (\<lambda>pc. \<not> on_face a sg pc) (mset cs). mset (cubie_colors x))"
    by (simp add: mset_concat_map mset_turn image_mset.compositionality comp_def)
  also have "\<dots> = (\<Sum>x\<in>#mset cs. mset (cubie_colors x))"
    by (subst (3) multiset_partition [of "mset cs" "on_face a sg"]) (simp only: image_mset_union sum_mset.union)
  finally show ?thesis
    by (simp add: mset_concat_map)
qed

lemma facelets_turn_move:
  assumes "list_all cubie_ok cs"
  shows "mset (concat (map cubie_colors (turn_move m cs))) = mset (concat (map cubie_colors cs))"
  using assms by (simp add: turn_move_def facelets_turn split: option.split)

lemma facelets_turns:
  assumes "distinct (map fst cs) \<and> list_all cubie_ok cs"
  shows "mset (concat (map cubie_colors (turns ms cs))) = mset (concat (map cubie_colors cs))"
  using assms
proof (induction ms arbitrary: cs)
  case Nil
  show ?case by simp
next
  case (Cons m ms)
  have "mset (concat (map cubie_colors (turns ms (turn_move m cs)))) =
        mset (concat (map cubie_colors (turn_move m cs)))"
    by (rule Cons.IH) (rule turn_move_ok [OF Cons.prems])
  also have "\<dots> = mset (concat (map cubie_colors cs))"
    using Cons.prems by (intro facelets_turn_move) simp
  finally show ?case by simp
qed

lemma init_facelets: "mset (facelet_colors CubeModel_init) = solved_colors"
  by (simp add: facelet_colors_def init_cubies cubie_colors_def face_keys_def face_to_axis_def
      List.map_filter_simps Cubie_def solved_colors_def WHITE_def YELLOW_def RED_def ORANGE_def
      BLUE_def GREEN_def eval_nat_numeral)

subsection \<open>Evaluations on the fresh cube\<close>

lemma init_is_solved: "is_solved CubeModel_init"
  by code_simp

lemma init_turn:
  assumes "0 \<le> face" and "face \<le> 5" and "str_int_ok d"
  shows "rotate_face CubeModel_init face d =
           (Inr True,
            CubeModel_init\<lparr>history := [(face, d)],
                            cubies := turn_move (face, d) (cubies CubeModel_init)\<rparr>)"
  using rotate_face_valid [OF init_not_animating init_state_ok assms]
  by (simp add: init_history)

lemma solved_after_turn:
  "\<not> is_solved_faces FACE_AXES (turn_move (0, 1) (cubies CubeModel_init))"
  "\<not> is_solved_faces FACE_AXES (turn_move (0, - 1) (cubies CubeModel_init))"
  "\<not> is_solved_faces FACE_AXES (turn_move (1, 1) (cubies CubeModel_init))"
  "\<not> is_solved_faces FACE_AXES (turn_move (1, - 1) (cubies CubeModel_init))"
  "\<not> is_solved_faces FACE_AXES (turn_move (2, 1) (cubies CubeModel_init))"
  "\<not> is_solved_faces FACE_AXES (turn_move (2, - 1) (cubies CubeModel_init))"
  "\<not> is_solved_faces FACE_AXES (turn_move (3, 1) (cubies CubeModel_init))"
  "\<not> is_solved_faces FACE_AXES (turn_move (3, - 1) (cubies CubeModel_init))"
  "\<not> is_solved_faces FACE_AXES (turn_move (4, 1) (cubies CubeModel_init))"
  "\<not> is_solved_faces FACE_AXES (turn_move (4, - 1) (cubies CubeModel_init))"
  "\<not> is_solved_faces FACE_AXES (turn_move (5, 1) (cubies CubeModel_init))"
  "\<not> is_solved_faces FACE_AXES (turn_move (5, - 1) (cubies CubeModel_init))"
  by code_simp+

lemma top_turn_grids:
  "get_face_colors CubeModel_init 0 = Inr [[0, 0, 0], [0, 0, 0], [0, 0, 0]]"
  "get_face_colors CubeModel_init 2 = Inr [[2, 2, 2], [2, 2, 2], [2, 2, 2]]"
  "get_face_colors CubeModel_init 4 = Inr [[4, 4, 4], [4, 4, 4], [4, 4, 4]]"
  "get_face_colors
     (CubeModel_init\<lparr>history := [(0, 1)],
                     cubies := turn_move (0, 1) (cubies CubeModel_init)\<rparr>) 0 =
   Inr [[0, 0, 0], [0, 0, 0], [0, 0, 0]]"
  "get_face_colors
     (CubeModel_init\<lparr>history := [(0, 1)],
                     cubies := turn_move (0, 1) (cubies CubeModel_init)\<rparr>) 4 =
   Inr [[2, 2, 2], [4, 4, 4], [4, 4, 4]]"
  by code_simp+

subsection \<open>The random draws of \<^verbatim>\<open>randomize\<close>\<close>


section \<open>The claims\<close>

text \<open>
  Claim C1 (closure). For every face in 0..5 and every direction that \<^verbatim>\<open>print\<close>
  can format, in particular +1 and -1, and every well-formed cube state with
  \<^verbatim>\<open>animating\<close> false, four consecutive
  calls \<^verbatim>\<open>rotate_face(face, direction)\<close> all return \<^verbatim>\<open>True\<close> and leave the mapping
  from positions to cubies (each cubie's recorded position and its colour under every
  label) exactly as it was before the four calls. The order of the dictionary's entries
  changes, its content as a mapping does not.
\<close>

theorem rotate_face_closure:
  assumes "0 \<le> face" and "face \<le> 5" and "str_int_ok direction"
    and "\<not> animating s" and "state_ok s"
  shows "\<exists>s1 s2 s3 s4.
           rotate_face s face direction = (Inr True, s1) \<and>
           rotate_face s1 face direction = (Inr True, s2) \<and>
           rotate_face s2 face direction = (Inr True, s3) \<and>
           rotate_face s3 face direction = (Inr True, s4) \<and>
           map_of (cubies s4) = map_of (cubies s)"
proof -
  obtain a sg where f: "map_of FACE_AXES face = Some (a, sg)"
    using FACE_AXES_valid [OF assms(1,2)] by blast
  from assms(5) have d0: "distinct (map fst (cubies s))" and ok: "list_all cubie_ok (cubies s)"
    by (simp_all add: state_ok_def)
  let ?ed = "direction * sg"
  obtain s1 where s1: "rotate_face s face direction = (Inr True, s1)" "\<not> animating s1"
      "cubies s1 = turn a sg ?ed (cubies s)" "distinct (map fst (cubies s1))"
    using rotate_face_step [OF assms(4) d0 f assms(3)] by blast
  obtain s2 where s2: "rotate_face s1 face direction = (Inr True, s2)" "\<not> animating s2"
      "cubies s2 = turn a sg ?ed (cubies s1)" "distinct (map fst (cubies s2))"
    using rotate_face_step [OF s1(2) s1(4) f assms(3)] by blast
  obtain s3 where s3: "rotate_face s2 face direction = (Inr True, s3)" "\<not> animating s3"
      "cubies s3 = turn a sg ?ed (cubies s2)" "distinct (map fst (cubies s3))"
    using rotate_face_step [OF s2(2) s2(4) f assms(3)] by blast
  obtain s4 where s4: "rotate_face s3 face direction = (Inr True, s4)"
      "cubies s4 = turn a sg ?ed (cubies s3)"
    using rotate_face_step [OF s3(2) s3(4) f assms(3)] by blast
  have "cubies s4 = filter (on_face a sg) (cubies s) @ filter (\<lambda>pc. \<not> on_face a sg pc) (cubies s)"
    unfolding s4(2) s3(3) s2(3) s1(3) by (rule turn4 [OF ok])
  then have "map_of (cubies s4) = map_of (cubies s)"
    by (simp only: map_of_split_face [OF d0])
  with s1(1) s2(1) s3(1) s4(1) show ?thesis by blast
qed

text \<open>
  The hypotheses of C1 hold of the fresh cube, face 0 (Top) and direction +1.
\<close>

theorem rotate_face_closure_witness:
  "\<exists>s1 s2 s3 s4.
     rotate_face CubeModel_init 0 1 = (Inr True, s1) \<and>
     rotate_face s1 0 1 = (Inr True, s2) \<and>
     rotate_face s2 0 1 = (Inr True, s3) \<and>
     rotate_face s3 0 1 = (Inr True, s4) \<and>
     map_of (cubies s4) = map_of (cubies CubeModel_init)"
  using rotate_face_closure [of 0 1 CubeModel_init] init_state_ok init_not_animating
    str_int_ok_small [of 1]
  by simp

text \<open>
  Claim C2 (inverse). For every face in 0..5 and every well-formed cube state with
  \<^verbatim>\<open>animating\<close> false, \<^verbatim>\<open>rotate_face(face, +1)\<close> followed by
  \<^verbatim>\<open>rotate_face(face, -1)\<close> leaves the mapping from positions to cubies as it was,
  and so do the two calls in the opposite order.
\<close>

theorem rotate_face_inverse:
  assumes "0 \<le> face" and "face \<le> 5" and "\<not> animating s" and "state_ok s"
  shows "(\<exists>s1 s2.
           rotate_face s face 1 = (Inr True, s1) \<and>
           rotate_face s1 face (- 1) = (Inr True, s2) \<and>
           map_of (cubies s2) = map_of (cubies s)) \<and>
         (\<exists>s1 s2.
           rotate_face s face (- 1) = (Inr True, s1) \<and>
           rotate_face s1 face 1 = (Inr True, s2) \<and>
           map_of (cubies s2) = map_of (cubies s))"
  using rotate_face_inverse_pair [OF assms, of 1 "- 1"] rotate_face_inverse_pair [OF assms, of "- 1" 1]
  by simp

text \<open>
  The hypotheses of C2 hold of the fresh cube and face 3 (Left).
\<close>

theorem rotate_face_inverse_witness:
  "(\<exists>s1 s2.
      rotate_face CubeModel_init 3 1 = (Inr True, s1) \<and>
      rotate_face s1 3 (- 1) = (Inr True, s2) \<and>
      map_of (cubies s2) = map_of (cubies CubeModel_init)) \<and>
   (\<exists>s1 s2.
      rotate_face CubeModel_init 3 (- 1) = (Inr True, s1) \<and>
      rotate_face s1 3 1 = (Inr True, s2) \<and>
      map_of (cubies s2) = map_of (cubies CubeModel_init))"
  using rotate_face_inverse [of 3 CubeModel_init] init_state_ok init_not_animating
  by simp

text \<open>
  Claim C3 (colour conservation). After every finite list of \<^verbatim>\<open>rotate_face\<close> calls
  with faces in 0..5 and directions +1 or -1 on a freshly created cube, every call
  returns and the multiset of the colours of all visible facelets (the entries of the
  cubies' colour dictionaries that are not \<^verbatim>\<open>None\<close>) is that of the solved cube: 54
  facelets, nine of each of the six colours.
\<close>

theorem color_conservation:
  assumes "list_all valid_move ms"
  shows "\<exists>s. apply_moves CubeModel_init ms = Inr s \<and>
             mset (facelet_colors s) = mset (facelet_colors CubeModel_init) \<and>
             mset (facelet_colors s) = solved_colors \<and>
             length (facelet_colors s) = 54 \<and>
             (\<forall>c \<in> {WHITE, YELLOW, RED, ORANGE, BLUE, GREEN}. count (mset (facelet_colors s)) c = 9)"
proof -
  obtain s where s: "apply_moves CubeModel_init ms = Inr s"
      "cubies s = turns ms (cubies CubeModel_init)"
    using apply_moves_valid [OF init_not_animating init_state_ok valid_move_face [OF assms]]
    by blast
  have "mset (facelet_colors s) = mset (facelet_colors CubeModel_init)"
    unfolding facelet_colors_def s(2)
    using init_state_ok by (intro facelets_turns) (simp add: state_ok_def)
  then have eq: "mset (facelet_colors s) = solved_colors"
    by (simp add: init_facelets)
  have "size (mset (facelet_colors s)) = 54"
    unfolding eq by (simp add: solved_colors_def)
  then have len: "length (facelet_colors s) = 54" by simp
  have "\<forall>c \<in> {WHITE, YELLOW, RED, ORANGE, BLUE, GREEN}. count (mset (facelet_colors s)) c = 9"
    unfolding eq
    by (simp add: solved_colors_def WHITE_def YELLOW_def RED_def ORANGE_def BLUE_def GREEN_def)
  with s(1) eq len show ?thesis
    by (simp add: init_facelets)
qed

text \<open>
  C3 at the three moves Top +1, Right -1, Back +1.
\<close>

theorem color_conservation_witness:
  "list_all valid_move [(0, 1), (2, - 1), (5, 1)] \<and>
   (\<exists>s. apply_moves CubeModel_init [(0, 1), (2, - 1), (5, 1)] = Inr s \<and>
        mset (facelet_colors s) = mset (facelet_colors CubeModel_init) \<and>
        mset (facelet_colors s) = solved_colors \<and>
        length (facelet_colors s) = 54 \<and>
        (\<forall>c \<in> {WHITE, YELLOW, RED, ORANGE, BLUE, GREEN}. count (mset (facelet_colors s)) c = 9))"
proof -
  have h: "list_all valid_move [(0, 1), (2, - 1), (5, 1)]"
    by (simp add: valid_move_def)
  from h color_conservation [OF h] show ?thesis
    by (rule conjI)
qed

text \<open>
  Claim C4 (history and inverse round trip). Starting from a freshly created cube, after
  any list of \<^verbatim>\<open>rotate_face\<close> calls with faces in 0..5 and directions +1 or -1, the
  history is the list of the moves made, \<^verbatim>\<open>get_solution()\<close> returns it reversed with
  every direction negated, and making the returned moves in order with
  \<^verbatim>\<open>rotate_face\<close> brings the mapping from positions to cubies back to that of the
  solved cube.
\<close>

theorem history_round_trip:
  assumes "list_all valid_move ms"
  shows "\<exists>s s'. apply_moves CubeModel_init ms = Inr s \<and> history s = ms \<and>
                get_solution s = map (\<lambda>(face, direction). (face, - direction)) (rev ms) \<and>
                apply_moves s (get_solution s) = Inr s' \<and>
                map_of (cubies s') = map_of (cubies CubeModel_init)"
proof -
  have ok0: "distinct (map fst (cubies CubeModel_init))" "list_all cubie_ok (cubies CubeModel_init)"
    using init_state_ok by (simp_all add: state_ok_def)
  obtain s where s: "apply_moves CubeModel_init ms = Inr s" "\<not> animating s" "state_ok s"
      "history s = ms" "cubies s = turns ms (cubies CubeModel_init)"
    using apply_moves_valid [OF init_not_animating init_state_ok valid_move_face [OF assms]]
    by (auto simp: init_history)
  have sol: "get_solution s = inverse_moves ms"
    by (simp add: get_solution_eq s(4))
  obtain s' where s': "apply_moves s (inverse_moves ms) = Inr s'" "state_ok s'"
      "cubies s' = turns (inverse_moves ms) (cubies s)"
    using apply_moves_valid [OF s(2,3) valid_move_face [OF valid_inverse_moves [OF assms]]]
    by blast
  have "mset (cubies s') = mset (cubies CubeModel_init)"
    unfolding s'(3)
    by (rule turns_inverse [OF ok0(2) ok0(1) assms]) (simp add: s(5))
  moreover have "distinct (map fst (cubies s'))"
    using s'(2) by (simp add: state_ok_def)
  ultimately have "map_of (cubies s') = map_of (cubies CubeModel_init)"
    by (rule map_of_mset_eq)
  with s(1,4) sol s'(1) show ?thesis
    by (simp add: inverse_moves_def)
qed

text \<open>
  C4 at the three moves Top +1, Right -1, Back +1.
\<close>

theorem history_round_trip_witness:
  "list_all valid_move [(0, 1), (2, - 1), (5, 1)] \<and>
   (\<exists>s s'. apply_moves CubeModel_init [(0, 1), (2, - 1), (5, 1)] = Inr s \<and>
           history s = [(0, 1), (2, - 1), (5, 1)] \<and>
           get_solution s =
             map (\<lambda>(face, direction). (face, - direction)) (rev [(0, 1), (2, - 1), (5, 1)]) \<and>
           apply_moves s (get_solution s) = Inr s' \<and>
           map_of (cubies s') = map_of (cubies CubeModel_init))"
proof -
  have h: "list_all valid_move [(0, 1), (2, - 1), (5, 1)]"
    by (simp add: valid_move_def)
  from h history_round_trip [OF h] show ?thesis
    by (rule conjI)
qed

text \<open>
  Claim C5 (solved detection). A freshly created cube reports \<^verbatim>\<open>is_solved()\<close> true,
  and for every face in 0..5 and direction +1 or -1 the single call
  \<^verbatim>\<open>rotate_face(face, direction)\<close> on it returns \<^verbatim>\<open>True\<close> and leaves a cube whose
  \<^verbatim>\<open>is_solved()\<close> is false.
\<close>

theorem solved_detection:
  assumes "0 \<le> face" and "face \<le> 5" and "direction = 1 \<or> direction = - 1"
  shows "is_solved CubeModel_init \<and>
         fst (rotate_face CubeModel_init face direction) = Inr True \<and>
         \<not> is_solved (snd (rotate_face CubeModel_init face direction))"
proof -
  have p: "str_int_ok direction"
    using assms(3) by (auto intro: str_int_ok_small)
  note r = init_turn [OF assms(1,2) p]
  from assms(1,2) have "face = 0 \<or> face = 1 \<or> face = 2 \<or> face = 3 \<or> face = 4 \<or> face = 5"
    by arith
  with assms(3) have "\<not> is_solved_faces FACE_AXES (turn_move (face, direction) (cubies CubeModel_init))"
    using solved_after_turn by (elim disjE) (simp_all only: not_False_eq_True)
  then have "\<not> is_solved (snd (rotate_face CubeModel_init face direction))"
    by (simp add: r is_solved_def)
  with r init_is_solved show ?thesis by simp
qed

text \<open>
  C5 at face 4 (Front) and direction -1.
\<close>

theorem solved_detection_witness:
  "is_solved CubeModel_init \<and>
   fst (rotate_face CubeModel_init 4 (- 1)) = Inr True \<and>
   \<not> is_solved (snd (rotate_face CubeModel_init 4 (- 1)))"
  using solved_detection [of 4 "- 1"] by simp

text \<open>
  Claim C6 (the Top turn). On a freshly created cube the call \<^verbatim>\<open>rotate_face(0, +1)\<close>
  returns \<^verbatim>\<open>True\<close>. Before the call \<^verbatim>\<open>get_face_colors\<close> gives the Top face (0) all
  White, the Right face (2) all Red and the Front face (4) all Blue. After the call
  \<^verbatim>\<open>get_face_colors(0)\<close> is the grid it was before, every cell White, and
  \<^verbatim>\<open>get_face_colors(4)\<close> has the row Red, Red, Red on top, which is row 0 of what
  \<^verbatim>\<open>get_face_colors(2)\<close> returned before the call, above two rows that are still Blue.
\<close>

theorem top_turn_scenario:
  "fst (rotate_face CubeModel_init 0 1) = Inr True \<and>
   get_face_colors CubeModel_init 0 =
     Inr [[WHITE, WHITE, WHITE], [WHITE, WHITE, WHITE], [WHITE, WHITE, WHITE]] \<and>
   get_face_colors CubeModel_init 2 =
     Inr [[RED, RED, RED], [RED, RED, RED], [RED, RED, RED]] \<and>
   get_face_colors CubeModel_init 4 =
     Inr [[BLUE, BLUE, BLUE], [BLUE, BLUE, BLUE], [BLUE, BLUE, BLUE]] \<and>
   get_face_colors (snd (rotate_face CubeModel_init 0 1)) 0 =
     Inr [[WHITE, WHITE, WHITE], [WHITE, WHITE, WHITE], [WHITE, WHITE, WHITE]] \<and>
   get_face_colors (snd (rotate_face CubeModel_init 0 1)) 4 =
     Inr [[RED, RED, RED], [BLUE, BLUE, BLUE], [BLUE, BLUE, BLUE]] \<and>
   get_face_colors (snd (rotate_face CubeModel_init 0 1)) 0 = get_face_colors CubeModel_init 0 \<and>
   (\<exists>right_before front_after.
      get_face_colors CubeModel_init 2 = Inr right_before \<and>
      get_face_colors (snd (rotate_face CubeModel_init 0 1)) 4 = Inr front_after \<and>
      front_after ! 0 = right_before ! 0 \<and> front_after ! 0 = [RED, RED, RED])"
proof -
  have r: "rotate_face CubeModel_init 0 1 =
             (Inr True,
              CubeModel_init\<lparr>history := [(0, 1)],
                              cubies := turn_move (0, 1) (cubies CubeModel_init)\<rparr>)"
    by (rule init_turn) (simp_all add: str_int_ok_small)
  show ?thesis
    unfolding r
    by (simp add: top_turn_grids WHITE_def RED_def BLUE_def)
qed

text \<open>
  Claim C7 (invalid face). The claim says that a call with a face outside 0..5 fails
  and leaves the mapping and the history as they were. The code fails with
  \<^verbatim>\<open>KeyError\<close> and leaves the mapping alone, but it has appended the move to the history
  before the lookup of \<^verbatim>\<open>FACE_AXES[face]\<close> fails: on the fresh cube,
  \<^verbatim>\<open>rotate_face(6, 1)\<close> leaves the history \<^verbatim>\<open>[(6, 1)]\<close>. (In general:
  \<open>rotate_face_invalid\<close>.)
\<close>

theorem invalid_face_history:
  "rotate_face CubeModel_init 6 1 = (Inl KeyError, CubeModel_init\<lparr>history := [(6, 1)]\<rparr>) \<and>
   cubies (snd (rotate_face CubeModel_init 6 1)) = cubies CubeModel_init \<and>
   history CubeModel_init = [] \<and>
   history (snd (rotate_face CubeModel_init 6 1)) = [(6, 1)]"
proof -
  have "map_of FACE_AXES 6 = None" by (simp add: FACE_AXES_def)
  from rotate_face_invalid [OF init_not_animating this str_int_ok_small str_int_ok_small, of 1]
  show ?thesis
    by (simp add: init_history)
qed

text \<open>
  Claim C8 (the animating gate). Whenever \<^verbatim>\<open>animating\<close> is true,
  \<^verbatim>\<open>rotate_face(face, direction)\<close> returns \<^verbatim>\<open>False\<close> and \<^verbatim>\<open>randomize(n)\<close>
  returns \<^verbatim>\<open>False\<close>, for every face, direction and count, and the whole state, the
  mapping and the history included, is as before the call; \<^verbatim>\<open>randomize\<close> draws
  nothing from the generator.
\<close>

theorem animating_gate:
  assumes "animating s"
  shows "rotate_face s face direction = (Inr False, s) \<and> randomize s n g = (Inr False, s, g)"
  using assms by (simp add: rotate_face_def randomize_def)

text \<open>
  C8 at the fresh cube with the flag set.
\<close>

theorem animating_gate_witness:
  "animating (CubeModel_init\<lparr>animating := True\<rparr>) \<and>
   rotate_face (CubeModel_init\<lparr>animating := True\<rparr>) 0 1 =
     (Inr False, CubeModel_init\<lparr>animating := True\<rparr>) \<and>
   randomize (CubeModel_init\<lparr>animating := True\<rparr>) 20 (sconst (0::nat)) =
     (Inr False, CubeModel_init\<lparr>animating := True\<rparr>, sconst (0::nat))"
  using animating_gate [of "CubeModel_init\<lparr>animating := True\<rparr>" 0 1 20 "sconst (0::nat)"]
  by simp




text \<open>
  Claim C10 (the direction is not checked), as stated: for a valid face with sign
  \<open>sg\<close> and every integer direction \<open>d\<close> with \<open>d * sg \<noteq> 1\<close>, \<^verbatim>\<open>rotate_face(face, d)\<close>
  returns \<^verbatim>\<open>True\<close> and appends \<open>(face, d)\<close> to the history. The direction is not
  checked, but it is printed first: for face 0 (sign +1) and the direction
  \<open>10 ^ 4300\<close>, which has 4301 digits, the call on the fresh cube leaves with
  \<^verbatim>\<open>ValueError\<close> before anything is appended or moved.
\<close>

theorem unvalidated_direction_limit:
  "map_of FACE_AXES 0 = Some (Z, 1) \<and>
   10 ^ int_max_str_digits * 1 \<noteq> (1::int) \<and>
   \<not> animating CubeModel_init \<and>
   rotate_face CubeModel_init 0 (10 ^ int_max_str_digits) = (Inl ValueError, CubeModel_init)"
proof -
  have "(10::int) \<le> 10 ^ int_max_str_digits"
    by (rule self_le_power) (simp_all add: int_max_str_digits_def)
  then have "10 ^ int_max_str_digits * 1 \<noteq> (1::int)"
    by simp
  moreover have "map_of FACE_AXES 0 = Some (Z, 1)"
    by (simp add: FACE_AXES_def)
  ultimately show ?thesis
    using init_not_animating rotate_face_unprintable [OF init_not_animating str_int_ok_limit]
    by simp
qed

text \<open>
  Claim C10, amended. For a valid face with axis \<open>a\<close> and sign \<open>sg\<close> in
  \<^verbatim>\<open>FACE_AXES\<close> and every integer direction \<open>d\<close> with \<open>d * sg \<noteq> 1\<close> that
  \<^verbatim>\<open>print\<close> can format (at most 4300 digits), such as 0 or 2,
  \<^verbatim>\<open>rotate_face(face, d)\<close> with \<^verbatim>\<open>animating\<close> false returns \<^verbatim>\<open>True\<close>, appends
  \<open>(face, d)\<close> to the history and replaces the dictionary of cubies by the turn of
  effective direction -1: every cubie of the layer is moved and recoloured by the else
  branches of the position and colour updates, the others follow unchanged. It is the
  dictionary that \<^verbatim>\<open>rotate_face(face, -sg)\<close> leaves. The dictionary is any dictionary (no
  key twice); its cubies need not be well formed.
\<close>

theorem unvalidated_direction:
  assumes "map_of FACE_AXES face = Some (a, sg)" and "d * sg \<noteq> 1" and "str_int_ok d"
    and "\<not> animating s" and "distinct (map fst (cubies s))"
  shows "fst (rotate_face s face d) = Inr True \<and>
         history (snd (rotate_face s face d)) = history s @ [(face, d)] \<and>
         cubies (snd (rotate_face s face d)) =
           map (move_cubie a (- 1)) (filter (\<lambda>pc. coord (fst pc) a = sg) (cubies s)) @
           filter (\<lambda>pc. coord (fst pc) a \<noteq> sg) (cubies s) \<and>
         (\<forall>p c. move_cubie a (- 1) (p, c) =
            (case other_axes a of
               [a1, a2] \<Rightarrow>
                 (let new_pos = set_coord (set_coord p a1 (coord p a2)) a2 (- coord p a1)
                  in (new_pos,
                      apply_face_mapping c (key_perm a (- 1))
                        (Cubie (coord new_pos X) (coord new_pos Y) (coord new_pos Z)))))) \<and>
         face_mapping a (d * sg) = Inr (key_perm a (- 1)) \<and>
         - sg * sg = - 1 \<and>
         fst (rotate_face s face (- sg)) = Inr True \<and>
         cubies (snd (rotate_face s face (- sg))) = cubies (snd (rotate_face s face d))"
proof -
  have sgs: "sg = 1 \<or> sg = - 1"
    by (rule FACE_AXES_sign [OF assms(1)])
  then have sg: "- sg * sg = - 1" by auto
  have p: "str_int_ok (- sg)"
    using sgs by (auto intro: str_int_ok_small)
  have 1: "move_cubie a (d * sg) = move_cubie a (- 1)"
    using assms(2) by (rule move_cubie_else)
  have 2: "move_cubie a (- sg * sg) = move_cubie a (- 1)"
    by (simp only: sg)
  have t: "turn a sg e (cubies s) =
             map (move_cubie a e) (filter (\<lambda>pc. coord (fst pc) a = sg) (cubies s)) @
             filter (\<lambda>pc. coord (fst pc) a \<noteq> sg) (cubies s)" for e
    by (simp add: turn_def on_face_def [abs_def])
  have m: "move_cubie a (- 1) (p, c) =
            (case other_axes a of
               [a1, a2] \<Rightarrow>
                 (let new_pos = set_coord (set_coord p a1 (coord p a2)) a2 (- coord p a1)
                  in (new_pos,
                      apply_face_mapping c (key_perm a (- 1))
                        (Cubie (coord new_pos X) (coord new_pos Y) (coord new_pos Z)))))" for p c
    by (cases p; cases a) (simp_all add: move_cubie_def rot_pos_def other_axes_simps)
  have k: "face_mapping a (d * sg) = Inr (key_perm a (- 1))"
    using assms(2) by (simp add: face_mapping_eq key_perm_def)
  have r1: "rotate_face s face d =
          (Inr True, s\<lparr>history := history s @ [(face, d)],
                       cubies := turn a sg (- 1) (cubies s)\<rparr>)"
    using rotate_face_turn [OF assms(4,5,1,3)] by (simp only: turn_def 1)
  have r2: "rotate_face s face (- sg) =
          (Inr True, s\<lparr>history := history s @ [(face, - sg)],
                       cubies := turn a sg (- 1) (cubies s)\<rparr>)"
    using rotate_face_turn [OF assms(4,5,1) p] by (simp only: turn_def 2)
  show ?thesis
    using m k sg by (simp add: r1 r2 t)
qed

text \<open>
  The amended C10 at the fresh cube, face 0 (axis Z, sign +1) and direction 2.
\<close>

theorem unvalidated_direction_witness:
  "fst (rotate_face CubeModel_init 0 2) = Inr True \<and>
   history (snd (rotate_face CubeModel_init 0 2)) = [(0, 2)] \<and>
   cubies (snd (rotate_face CubeModel_init 0 2)) =
     map (move_cubie Z (- 1)) (filter (\<lambda>pc. coord (fst pc) Z = 1) (cubies CubeModel_init)) @
     filter (\<lambda>pc. coord (fst pc) Z \<noteq> 1) (cubies CubeModel_init) \<and>
   fst (rotate_face CubeModel_init 0 (- 1)) = Inr True \<and>
   cubies (snd (rotate_face CubeModel_init 0 (- 1))) = cubies (snd (rotate_face CubeModel_init 0 2))"
proof -
  have f: "map_of FACE_AXES 0 = Some (Z, 1)" by (simp add: FACE_AXES_def)
  have d: "distinct (map fst (cubies CubeModel_init))"
    using init_state_ok by (simp add: state_ok_def)
  have p: "str_int_ok 2" by (rule str_int_ok_small) simp
  have n: "2 * 1 \<noteq> (1::int)" by simp
  from unvalidated_direction [OF f n p init_not_animating d] show ?thesis
    by (simp add: init_history)
qed

end
